theory Spec2Isabelle
  imports Main "HOL-Library.Char_ord" "HOL-Library.List_Lexorder"
begin

section \<open>Python values reaching the views\<close>

text \<open>
  The keyword \<open>pk\<close> of a detail route is the text matched in the URL, so it is a Python
  \<open>str\<close>; the views of \<open>Accounts/views.py\<close> compare it with the literal \<open>'me'\<close> and with
  \<open>request.user.id\<close>. A direct call may pass an integer. Python's \<open>==\<close> between a \<open>str\<close>
  and an \<open>int\<close> is \<open>False\<close>, whatever their contents.
\<close>

datatype pyval = PyStr string | PyInt int

fun py_eq :: "pyval \<Rightarrow> pyval \<Rightarrow> bool" where
  "py_eq (PyStr a) (PyStr b) = (a = b)"
| "py_eq (PyInt a) (PyInt b) = (a = b)"
| "py_eq (PyStr a) (PyInt b) = False"
| "py_eq (PyInt a) (PyStr b) = False"

text \<open>
  A lookup or an insert with \<open>friend_id=pk\<close> or \<open>pk=pk\<close> hands the value to the integer
  primary-key field, which prepares it with Python's \<open>int(value)\<close>: surrounding white space
  is stripped, one sign is allowed, and single underscores may separate digits. Anything
  else raises \<open>ValueError\<close>. Primary keys are taken to be integers (the framework's
  default; \<open>Accounts/models.py\<close> is not among the sources); only ASCII text is covered.
\<close>

definition is_space :: "char \<Rightarrow> bool" where
  "is_space c = (c \<in> set [CHR '' '', CHR 0x09, CHR 0x0A, CHR 0x0B, CHR 0x0C, CHR 0x0D,
                          CHR 0x1C, CHR 0x1D, CHR 0x1E, CHR 0x1F])"

definition is_digit :: "char \<Rightarrow> bool" where
  "is_digit c = (CHR ''0'' \<le> c \<and> c \<le> CHR ''9'')"

definition digit_value :: "char \<Rightarrow> nat" where
  "digit_value c = of_char c - 48"

fun digits :: "string \<Rightarrow> nat \<Rightarrow> nat option" where
  "digits [] acc = Some acc"
| "digits [c] acc = (if is_digit c then Some (10 * acc + digit_value c) else None)"
| "digits (c # d # cs) acc =
     (if \<not> is_digit c then None
      else if d = CHR ''_'' then
        (if cs = [] then None else digits cs (10 * acc + digit_value c))
      else digits (d # cs) (10 * acc + digit_value c))"

definition strip :: "string \<Rightarrow> string" where
  "strip s = rev (dropWhile is_space (rev (dropWhile is_space s)))"

definition int_of_str :: "string \<Rightarrow> int option" where
  "int_of_str s =
     (case strip s of
        [] \<Rightarrow> None
      | c # cs \<Rightarrow>
          if c = CHR ''-'' then
            (if cs = [] then None else map_option (\<lambda>n. - int n) (digits cs 0))
          else if c = CHR ''+'' then
            (if cs = [] then None else map_option int (digits cs 0))
          else map_option int (digits (c # cs) 0))"

fun get_prep_value :: "pyval \<Rightarrow> int option" where
  "get_prep_value (PyInt n) = Some n"
| "get_prep_value (PyStr s) = int_of_str s"

section \<open>The relational store\<close>

text \<open>
  A \<open>User\<close> row with the attributes the views read or write; \<open>password\<close> stands for the
  stored hash, identified with the one raw password that verifies against it.
  A \<open>UserFriends\<close> row \<open>(u, f)\<close> says that the user with id \<open>u\<close> follows the user with
  id \<open>f\<close>. The tables are lists of rows; nothing in the views relies on a uniqueness
  constraint, so none is built in.
\<close>

record account =
  user_id :: int
  username :: string
  email :: string
  password :: string
  is_active :: bool
  is_staff :: bool

record post =
  post_id :: int
  author :: int
  liked_by :: "int list"

record db =
  users :: "account list"
  user_friends :: "(int \<times> int) list"
  posts :: "post list"

section \<open>Requests, responses and raised exceptions\<close>

datatype requester = AnonymousUser | User account

fun is_anonymous :: "requester \<Rightarrow> bool" where
  "is_anonymous AnonymousUser = True"
| "is_anonymous (User u) = False"

text \<open>
  Pagination is configured outside the sources: \<open>paginator = None\<close> is a deployment
  without a pagination class, otherwise the page size and the page number asked for.
  \<open>filter_backends\<close> is the joint effect of the three filter backends of the view set
  (the filter set, search and ordering query parameters) on a list of rows.
\<close>

record pagination =
  page_size :: nat
  page_number :: nat

record request =
  user :: requester
  data :: "(string \<times> string) list"
  filter_backends :: "account list \<Rightarrow> account list"
  paginator :: "pagination option"

text \<open>The serialized form of a candidate of a listing, as seen by a viewer.\<close>

record user_repr =
  repr_id :: int
  repr_username :: string
  is_follower :: bool
  is_followed :: bool
  is_friends :: bool

datatype body =
    Dict "(string \<times> string) list"
  | Errors "(string \<times> string list) list"
  | Users "user_repr list"
  | Page nat "user_repr list"

record response =
  status_code :: nat
  body :: body

text \<open>\<open>Response(data)\<close> without a status is sent with HTTP 200.\<close>

definition Response :: "body \<Rightarrow> response" where
  "Response d = \<lparr>status_code = 200, body = d\<rparr>"

definition HTTP_200_OK :: nat where "HTTP_200_OK = 200"
definition HTTP_400_BAD_REQUEST :: nat where "HTTP_400_BAD_REQUEST = 400"

datatype api_exception =
    NotAuthenticated
  | PermissionDenied
  | Http404
  | ValueError
  | KeyError
  | MultipleObjectsReturned
  | NotImplementedError

type_synonym 'a raised = "api_exception + 'a"

section \<open>Follow edges: \<open>add_friend\<close> and \<open>remove_friend\<close>\<close>

text \<open>
  \<open>UserFriends.objects.get_or_create(user=request.user, friend_id=pk)\<close>: the matching
  row is looked up; one match is returned with \<open>created = False\<close>, no match inserts the
  row and returns \<open>created = True\<close>, several matches raise.
\<close>

definition get_or_create ::
  "(int \<times> int) list \<Rightarrow> int \<Rightarrow> pyval \<Rightarrow> ((int \<times> int) list \<times> bool) raised" where
  "get_or_create rows u pk =
     (case get_prep_value pk of
        None \<Rightarrow> Inl ValueError
      | Some f \<Rightarrow>
          (case filter (\<lambda>r. r = (u, f)) rows of
             [] \<Rightarrow> Inr (rows @ [(u, f)], True)
           | [r] \<Rightarrow> Inr (rows, False)
           | r # r' # rs \<Rightarrow> Inl MultipleObjectsReturned))"

text \<open>
  \<open>UserFriends.objects.filter(user=request.user, friend_id=pk).delete()\<close>: every
  matching row is deleted and their number is returned first.
\<close>

definition filter_delete ::
  "(int \<times> int) list \<Rightarrow> int \<Rightarrow> pyval \<Rightarrow> ((int \<times> int) list \<times> nat) raised" where
  "filter_delete rows u pk =
     (case get_prep_value pk of
        None \<Rightarrow> Inl ValueError
      | Some f \<Rightarrow>
          Inr (filter (\<lambda>r. r \<noteq> (u, f)) rows, length (filter (\<lambda>r. r = (u, f)) rows)))"

text \<open>
  Both actions are declared with \<open>permission_classes=[IsAuthenticated]\<close>, checked before
  the body runs.
\<close>

definition add_friend :: "db \<Rightarrow> request \<Rightarrow> pyval \<Rightarrow> response raised \<times> db" where
  "add_friend d request pk =
     (case user request of
        AnonymousUser \<Rightarrow> (Inl NotAuthenticated, d)
      | User u \<Rightarrow>
          if py_eq pk (PyStr ''me'') \<or> py_eq pk (PyInt (user_id u)) then
            (Inr (Response (Dict [(''status'', ''error''),
                                  (''message'', ''you can't befriend yourself'')])), d)
          else
            (case get_or_create (user_friends d) (user_id u) pk of
               Inl e \<Rightarrow> (Inl e, d)
             | Inr (rows, created) \<Rightarrow>
                 if created then
                   (Inr (Response (Dict [(''status'', ''success''),
                                         (''message'', ''friend added'')])),
                    d\<lparr>user_friends := rows\<rparr>)
                 else
                   (Inr (Response (Dict [(''status'', ''error''),
                                         (''message'', ''user already your friend'')])),
                    d\<lparr>user_friends := rows\<rparr>)))"

definition remove_friend :: "db \<Rightarrow> request \<Rightarrow> pyval \<Rightarrow> response raised \<times> db" where
  "remove_friend d request pk =
     (case user request of
        AnonymousUser \<Rightarrow> (Inl NotAuthenticated, d)
      | User u \<Rightarrow>
          if py_eq pk (PyStr ''me'') \<or> py_eq pk (PyInt (user_id u)) then
            (Inr (Response (Dict [(''status'', ''error''),
                                  (''message'', ''you can't remove yourself from friends'')])), d)
          else
            (case filter_delete (user_friends d) (user_id u) pk of
               Inl e \<Rightarrow> (Inl e, d)
             | Inr (rows, n) \<Rightarrow>
                 if n \<noteq> 0 then
                   (Inr (Response (Dict [(''status'', ''success''),
                                         (''message'', ''friend removed'')])),
                    d\<lparr>user_friends := rows\<rparr>)
                 else
                   (Inr (Response (Dict [(''status'', ''error''),
                                         (''message'', ''user is not your friend'')])),
                    d\<lparr>user_friends := rows\<rparr>)))"

section \<open>Listings of active users\<close>

text \<open>\<open>User.objects.filter(is_active=True).order_by('username')\<close>\<close>

definition get_queryset :: "db \<Rightarrow> account list" where
  "get_queryset d = sort_key username (filter is_active (users d))"

definition filter_queryset :: "request \<Rightarrow> account list \<Rightarrow> account list" where
  "filter_queryset request queryset = filter_backends request queryset"

text \<open>
  Modelled from the spec: the page-number paginator configured outside the sources. No
  paginator or a page size of zero gives no page (\<open>None\<close>); a page number outside
  \<open>1 .. num_pages\<close> raises the framework's not-found error; otherwise the page is the
  slice of \<open>page_size\<close> rows starting at \<open>(page_number - 1) * page_size\<close>. An empty
  list has one (empty) page.
\<close>

definition num_pages :: "nat \<Rightarrow> nat \<Rightarrow> nat" where
  "num_pages count per_page = (if count = 0 then 1 else (count + per_page - 1) div per_page)"

definition paginate_queryset :: "request \<Rightarrow> account list \<Rightarrow> account list option raised" where
  "paginate_queryset request queryset =
     (case paginator request of
        None \<Rightarrow> Inr None
      | Some p \<Rightarrow>
          if page_size p = 0 then Inr None
          else if page_number p < 1 \<or> num_pages (length queryset) (page_size p) < page_number p
          then Inl Http404
          else Inr (Some (take (page_size p)
                            (drop ((page_number p - 1) * page_size p) queryset))))"

text \<open>
  The paginated response carries the number of rows of the whole list that was paginated
  and the results given to it (the links to the neighbouring pages are left out).
\<close>

definition get_paginated_response :: "account list \<Rightarrow> user_repr list \<Rightarrow> response" where
  "get_paginated_response queryset results = Response (Page (length queryset) results)"

text \<open>
  Modelled from the spec: the three derived flags of the user serializer
  (\<open>Accounts/serializers.py\<close> is not among the sources). For a viewer and a candidate,
  \<open>is_follower\<close> says that the edge from the candidate to the viewer exists,
  \<open>is_followed\<close> that the edge from the viewer to the candidate exists, and
  \<open>is_friends\<close> that both hold.
\<close>

definition edge_exists :: "db \<Rightarrow> int \<Rightarrow> int \<Rightarrow> bool" where
  "edge_exists d u f = ((u, f) \<in> set (user_friends d))"

definition to_representation :: "db \<Rightarrow> account \<Rightarrow> account \<Rightarrow> user_repr" where
  "to_representation d viewer candidate =
     \<lparr>repr_id = user_id candidate,
      repr_username = username candidate,
      is_follower = edge_exists d (user_id candidate) (user_id viewer),
      is_followed = edge_exists d (user_id viewer) (user_id candidate),
      is_friends = (edge_exists d (user_id candidate) (user_id viewer)
                    \<and> edge_exists d (user_id viewer) (user_id candidate))\<rparr>"

definition serializer_data :: "db \<Rightarrow> account \<Rightarrow> account list \<Rightarrow> user_repr list" where
  "serializer_data d viewer candidates = map (to_representation d viewer) candidates"

text \<open>
  The key passed by the three actions: \<open>'is_friends'\<close>, \<open>'is_follower'\<close> or
  \<open>'is_followed'\<close>; \<open>getitem u key\<close> is \<open>user[filter_key]\<close>.
\<close>

datatype filter_key = IsFriends | IsFollower | IsFollowed

fun getitem :: "user_repr \<Rightarrow> filter_key \<Rightarrow> bool" where
  "getitem u IsFriends = is_friends u"
| "getitem u IsFollower = is_follower u"
| "getitem u IsFollowed = is_followed u"

text \<open>The loop of \<open>_filter_serializer\<close>, appending in order.\<close>

fun filter_serializer_loop ::
  "user_repr list \<Rightarrow> filter_key \<Rightarrow> user_repr list \<Rightarrow> user_repr list" where
  "filter_serializer_loop [] filter_key acc = acc"
| "filter_serializer_loop (u # us) filter_key acc =
     (if getitem u filter_key then filter_serializer_loop us filter_key (acc @ [u])
      else filter_serializer_loop us filter_key acc)"

definition filter_serializer :: "user_repr list \<Rightarrow> filter_key \<Rightarrow> user_repr list" where
  "filter_serializer serializer filter_key = filter_serializer_loop serializer filter_key []"

text \<open>
  \<open>_list_response\<close> returns a response when a page was produced (\<open>Inl\<close>) and the bare
  list otherwise (\<open>Inr\<close>); the viewer is \<open>request.user\<close>, authenticated by the time the
  serializer runs. For the three listing actions \<open>get_serializer\<close> picks
  \<open>serializer_class\<close>, the action being neither \<open>update\<close> nor \<open>retrieve\<close>.
\<close>

definition list_response ::
  "db \<Rightarrow> request \<Rightarrow> account \<Rightarrow> filter_key \<Rightarrow> (response + user_repr list) raised" where
  "list_response d request viewer serializer_filter =
     (let queryset = filter_queryset request (get_queryset d) in
      case paginate_queryset request queryset of
        Inl e \<Rightarrow> Inl e
      | Inr (Some page) \<Rightarrow>
          Inr (Inl (get_paginated_response queryset
                      (filter_serializer (serializer_data d viewer page) serializer_filter)))
      | Inr None \<Rightarrow>
          Inr (Inr (filter_serializer (serializer_data d viewer queryset) serializer_filter)))"

definition list_action :: "db \<Rightarrow> request \<Rightarrow> filter_key \<Rightarrow> response raised" where
  "list_action d request serializer_filter =
     (case user request of
        AnonymousUser \<Rightarrow> Inl NotAuthenticated
      | User viewer \<Rightarrow>
          (case list_response d request viewer serializer_filter of
             Inl e \<Rightarrow> Inl e
           | Inr (Inl resp) \<Rightarrow> Inr resp
           | Inr (Inr users_data) \<Rightarrow> Inr (Response (Users users_data))))"

definition friends :: "db \<Rightarrow> request \<Rightarrow> response raised" where
  "friends d request = list_action d request IsFriends"

definition followers :: "db \<Rightarrow> request \<Rightarrow> response raised" where
  "followers d request = list_action d request IsFollower"

definition followed :: "db \<Rightarrow> request \<Rightarrow> response raised" where
  "followed d request = list_action d request IsFollowed"

text \<open>The users a listing response carries.\<close>

fun results :: "response raised \<Rightarrow> user_repr list" where
  "results (Inl e) = []"
| "results (Inr r) =
     (case body r of Users us \<Rightarrow> us | Page n us \<Rightarrow> us | Dict kv \<Rightarrow> [] | Errors es \<Rightarrow> [])"

section \<open>Looking up the addressed account\<close>

text \<open>
  Modelled from the spec: the object permission \<open>IsProfileOwnerOrAdmin\<close>
  (\<open>Accounts/permissions.py\<close> is not among the sources), for the mutating requests
  modelled here: the requester owns the profile or is an administrator.
\<close>

fun has_object_permission :: "requester \<Rightarrow> account \<Rightarrow> bool" where
  "has_object_permission AnonymousUser obj = False"
| "has_object_permission (User u) obj = (user_id u = user_id obj \<or> is_staff u)"

fun permission_denied :: "requester \<Rightarrow> api_exception" where
  "permission_denied AnonymousUser = NotAuthenticated"
| "permission_denied (User u) = PermissionDenied"

text \<open>
  \<open>get_object\<close>: the id \<open>'me'\<close> is the requester, with no lookup and no permission check;
  any other id is looked up among the filtered active users (a value that is no integer
  is reported as not found) and the object permissions are checked.
\<close>

definition get_object :: "db \<Rightarrow> request \<Rightarrow> pyval \<Rightarrow> requester raised" where
  "get_object d request pk =
     (if py_eq pk (PyStr ''me'') then Inr (user request)
      else
        (case get_prep_value pk of
           None \<Rightarrow> Inl Http404
         | Some k \<Rightarrow>
             (case filter (\<lambda>u. user_id u = k) (filter_queryset request (get_queryset d)) of
                [] \<Rightarrow> Inl Http404
              | [obj] \<Rightarrow>
                  if has_object_permission (user request) obj then Inr (User obj)
                  else Inl (permission_denied (user request))
              | obj # obj' # objs \<Rightarrow> Inl MultipleObjectsReturned)))"

text \<open>
  \<open>instance.save()\<close> writes the attributes of the instance to the row with its primary
  key, and inserts the row when there is none.
\<close>

definition save :: "account \<Rightarrow> db \<Rightarrow> db" where
  "save instance d =
     (if user_id instance \<in> set (map user_id (users d)) then
        d\<lparr>users := map (\<lambda>u. if user_id u = user_id instance then instance else u) (users d)\<rparr>
      else d\<lparr>users := users d @ [instance]\<rparr>)"

section \<open>Account actions\<close>

text \<open>
  \<open>create\<close>: a requester who is not anonymous is turned away; otherwise the inherited
  \<open>create\<close> runs, taken as a parameter (its serializer is not among the sources).
\<close>

definition create ::
  "(db \<Rightarrow> request \<Rightarrow> response raised \<times> db) \<Rightarrow> db \<Rightarrow> request \<Rightarrow> response raised \<times> db" where
  "create super_create d request =
     (if \<not> is_anonymous (user request) then
        (Inr (Response (Dict [(''status'', ''error''),
                              (''message'', ''you already signed up'')])), d)
      else super_create d request)"

text \<open>
  \<open>destroy\<close>: the anonymous user object cannot be saved (its \<open>save\<close> raises).
\<close>

definition destroy :: "db \<Rightarrow> request \<Rightarrow> pyval \<Rightarrow> response raised \<times> db" where
  "destroy d request pk =
     (case get_object d request pk of
        Inl e \<Rightarrow> (Inl e, d)
      | Inr AnonymousUser \<Rightarrow> (Inl NotImplementedError, d)
      | Inr (User instance) \<Rightarrow>
          (Inr \<lparr>status_code = HTTP_200_OK,
                body = Dict [(''status'', ''success''),
                             (''message'', ''Account is not active now'')]\<rparr>,
           save (instance\<lparr>is_active := False\<rparr>) d))"

definition check_password :: "account \<Rightarrow> string \<Rightarrow> bool" where
  "check_password instance raw_password = (password instance = raw_password)"

definition set_password :: "account \<Rightarrow> string \<Rightarrow> account" where
  "set_password instance raw_password = instance\<lparr>password := raw_password\<rparr>"

text \<open>\<open>request.data[key]\<close>\<close>

definition data_getitem :: "request \<Rightarrow> string \<Rightarrow> string raised" where
  "data_getitem request key =
     (case map_of (data request) key of None \<Rightarrow> Inl KeyError | Some v \<Rightarrow> Inr v)"

text \<open>
  \<open>change_password\<close>, declared with
  \<open>permission_classes=[IsAuthenticated, IsProfileOwnerOrAdmin]\<close>. The serializer of the
  action is not among the sources: \<open>serializer_errors\<close> gives the errors it finds in the
  request data, none meaning that \<open>is_valid()\<close> holds.
\<close>

definition change_password ::
  "((string \<times> string) list \<Rightarrow> (string \<times> string list) list) \<Rightarrow>
   db \<Rightarrow> request \<Rightarrow> pyval \<Rightarrow> response raised \<times> db" where
  "change_password serializer_errors d request pk =
     (case user request of
        AnonymousUser \<Rightarrow> (Inl NotAuthenticated, d)
      | User u \<Rightarrow>
          (case get_object d request pk of
             Inl e \<Rightarrow> (Inl e, d)
           | Inr AnonymousUser \<Rightarrow> (Inl NotImplementedError, d)
           | Inr (User instance) \<Rightarrow>
               if serializer_errors (data request) = [] then
                 (case data_getitem request ''old_password'' of
                    Inl e \<Rightarrow> (Inl e, d)
                  | Inr old_password \<Rightarrow>
                      if \<not> check_password instance old_password then
                        (Inr \<lparr>status_code = HTTP_400_BAD_REQUEST,
                              body = Errors [(''old_password'', [''Wrong password.''])]\<rparr>, d)
                      else
                        (case data_getitem request ''new_password'' of
                           Inl e \<Rightarrow> (Inl e, d)
                         | Inr new_password \<Rightarrow>
                             (Inr (Response (Dict [(''status'', ''success''),
                                                   (''message'', ''Password updated successfully'')])),
                              save (set_password instance new_password) d)))
               else
                 (Inr \<lparr>status_code = HTTP_400_BAD_REQUEST,
                       body = Errors (serializer_errors (data request))\<rparr>, d)))"

text \<open>
  Modelled from the spec: the serializer-level validation of the action, which rejects a
  bad input shape (\<open>ChangePasswordSerializer\<close> of \<open>Accounts/serializers.py\<close> is not among
  the sources). The two fields the view reads are required, and a missing one is
  reported with the framework's message.
\<close>

definition required_fields :: "(string \<times> string) list \<Rightarrow> (string \<times> string list) list" where
  "required_fields kv =
     (if map_of kv ''old_password'' = None then [(''old_password'', [''This field is required.''])] else [])
     @ (if map_of kv ''new_password'' = None then [(''new_password'', [''This field is required.''])] else [])"

section \<open>Posts\<close>

text \<open>
  Modelled from the spec: \<open>Post.is_already_liked\<close> (\<open>Posts/models.py\<close> is not among the
  sources): the user is in the liked-by list of the post.
\<close>

definition is_already_liked :: "post \<Rightarrow> account \<Rightarrow> bool" where
  "is_already_liked obj u = (user_id u \<in> set (liked_by obj))"

text \<open>\<open>PostSerializer.get_is_liked\<close>, with the request of the serializer context.\<close>

definition get_is_liked :: "request \<Rightarrow> post \<Rightarrow> bool" where
  "get_is_liked request obj =
     (case user request of
        AnonymousUser \<Rightarrow> False
      | User u \<Rightarrow> is_already_liked obj u)"

section \<open>Reading responses, and sample data\<close>

text \<open>The response of the edge actions: a dictionary with a status and a message, HTTP 200.\<close>

definition message :: "string \<Rightarrow> string \<Rightarrow> response raised" where
  "message s m = Inr (Response (Dict [(''status'', s), (''message'', m)]))"

text \<open>The \<open>status\<close> entry of the body of a response, when it has one.\<close>

fun body_status :: "response raised \<Rightarrow> string option" where
  "body_status (Inl e) = None"
| "body_status (Inr r) =
     (case body r of Dict kv \<Rightarrow> map_of kv ''status'' | Errors es \<Rightarrow> None
      | Users us \<Rightarrow> None | Page n us \<Rightarrow> None)"

definition alice :: account where
  "alice = \<lparr>user_id = 1, username = ''alice'', email = ''alice@example.org'',
            password = ''wonderland'', is_active = True, is_staff = False\<rparr>"

definition bob :: account where
  "bob = \<lparr>user_id = 2, username = ''bob'', email = ''bob@example.org'',
          password = ''builder'', is_active = True, is_staff = False\<rparr>"

definition carol :: account where
  "carol = \<lparr>user_id = 3, username = ''carol'', email = ''carol@example.org'',
            password = ''singer'', is_active = True, is_staff = False\<rparr>"

text \<open>Three users and no edge; then alice and bob following each other.\<close>

definition db0 :: db where
  "db0 = \<lparr>users = [bob, alice, carol], user_friends = [], posts = []\<rparr>"

definition db1 :: db where
  "db1 = db0\<lparr>user_friends := [(1, 2), (2, 1)]\<rparr>"

text \<open>A request of an authenticated user, with no query parameters and no pagination.\<close>

definition req :: "account \<Rightarrow> request" where
  "req a = \<lparr>user = User a, data = [], filter_backends = (\<lambda>q. q), paginator = None\<rparr>"

text \<open>
  The candidates handed to the serializer by \<open>_list_response\<close>: the page when there is
  one, the whole filtered list when pagination is off, nothing when the page is invalid.
\<close>

definition evaluated_page :: "db \<Rightarrow> request \<Rightarrow> account list" where
  "evaluated_page d request =
     (let queryset = filter_queryset request (get_queryset d) in
      case paginate_queryset request queryset of
        Inl e \<Rightarrow> []
      | Inr (Some page) \<Rightarrow> page
      | Inr None \<Rightarrow> queryset)"

definition dave :: account where
  "dave = \<lparr>user_id = 4, username = ''dave'', email = ''dave@example.org'',
           password = ''diver'', is_active = True, is_staff = False\<rparr>"

text \<open>Four users; alice follows carol and dave.\<close>

definition db2 :: db where
  "db2 = \<lparr>users = [dave, bob, alice, carol], user_friends = [(1, 3), (1, 4)], posts = []\<rparr>"

text \<open>The same request, asking for page \<open>k\<close> with \<open>n\<close> users a page.\<close>

definition paged :: "account \<Rightarrow> nat \<Rightarrow> nat \<Rightarrow> request" where
  "paged a n k = (req a)\<lparr>paginator := Some \<lparr>page_size = n, page_number = k\<rparr>\<rparr>"

text \<open>An anonymous request.\<close>

definition anonymous :: request where
  "anonymous = \<lparr>user = AnonymousUser, data = [], filter_backends = (\<lambda>q. q), paginator = None\<rparr>"

text \<open>A stand-in for the inherited \<open>create\<close>: it registers dave and answers HTTP 201.\<close>

definition register_dave :: "db \<Rightarrow> request \<Rightarrow> response raised \<times> db" where
  "register_dave d request =
     (Inr \<lparr>status_code = 201, body = Dict [(''username'', ''dave'')]\<rparr>,
      d\<lparr>users := users d @ [dave]\<rparr>)"

text \<open>A post of bob, liked by alice and carol.\<close>

definition post1 :: post where
  "post1 = \<lparr>post_id = 1, author = 2, liked_by = [1, 3]\<rparr>"

text \<open>
  Alice sends a wrong current password (hers is \<open>wonderland\<close>): once without a new
  password, once with one.
\<close>

definition guess :: request where
  "guess = (req alice)\<lparr>data := [(''old_password'', ''rabbit'')]\<rparr>"

definition retry :: request where
  "retry = (req alice)\<lparr>data := [(''old_password'', ''rabbit''), (''new_password'', ''hatter'')]\<rparr>"


section \<open>Properties of the edge actions\<close>

lemmas int_of_str_simps = int_of_str_def strip_def is_space_def is_digit_def digit_value_def

lemma int_of_str_me: "int_of_str ''me'' = None"
  by (simp add: int_of_str_simps)

lemma guard_other:
  assumes "get_prep_value pk = Some b" and "b \<noteq> user_id a"
  shows "\<not> (py_eq pk (PyStr ''me'') \<or> py_eq pk (PyInt (user_id a)))"
proof (cases pk)
  case (PyStr s)
  with assms(1) have "s \<noteq> ''me''" using int_of_str_me by auto
  with PyStr show ?thesis by simp
next
  case (PyInt n)
  with assms show ?thesis by simp
qed

lemma filter_eq_distinct:
  "distinct xs \<Longrightarrow> filter (\<lambda>r. r = x) xs = (if x \<in> set xs then [x] else [])"
  by (induction xs) auto

lemma add_friend_other:
  assumes "user request = User a" and "get_prep_value pk = Some b" and "b \<noteq> user_id a"
  shows "add_friend d request pk =
     (case filter (\<lambda>r. r = (user_id a, b)) (user_friends d) of
        [] \<Rightarrow> (message ''success'' ''friend added'',
               d\<lparr>user_friends := user_friends d @ [(user_id a, b)]\<rparr>)
      | [r] \<Rightarrow> (message ''error'' ''user already your friend'', d)
      | r # r' # rs \<Rightarrow> (Inl MultipleObjectsReturned, d))"
  using guard_other[OF assms(2,3)] assms(1,2)
  by (simp add: add_friend_def get_or_create_def message_def split: list.splits)

lemma remove_friend_other:
  assumes "user request = User a" and "get_prep_value pk = Some b" and "b \<noteq> user_id a"
  shows "remove_friend d request pk =
     (if (user_id a, b) \<in> set (user_friends d)
      then (message ''success'' ''friend removed'',
            d\<lparr>user_friends := filter (\<lambda>r. r \<noteq> (user_id a, b)) (user_friends d)\<rparr>)
      else (message ''error'' ''user is not your friend'', d))"
proof -
  have len: "length (filter (\<lambda>r. r = (user_id a, b)) (user_friends d)) \<noteq> 0
      \<longleftrightarrow> (user_id a, b) \<in> set (user_friends d)"
    by (induction "user_friends d") (auto simp: filter_empty_conv)
  have keep: "(user_id a, b) \<notin> set (user_friends d) \<Longrightarrow>
      filter (\<lambda>r. r \<noteq> (user_id a, b)) (user_friends d) = user_friends d"
    by (auto simp: filter_id_conv)
  show ?thesis
    using guard_other[OF assms(2,3)] assms(1,2) len keep
    by (simp add: remove_friend_def filter_delete_def message_def)
qed

lemma add_friend_other_distinct:
  assumes "user request = User a" and "get_prep_value pk = Some b" and "b \<noteq> user_id a"
    and "distinct (user_friends d)"
  shows "add_friend d request pk =
     (if (user_id a, b) \<in> set (user_friends d)
      then (message ''error'' ''user already your friend'', d)
      else (message ''success'' ''friend added'',
            d\<lparr>user_friends := user_friends d @ [(user_id a, b)]\<rparr>))"
  by (simp add: add_friend_other[OF assms(1-3)] filter_eq_distinct[OF assms(4)])

lemma message_inject: "message s m = message s' m' \<longleftrightarrow> s = s' \<and> m = m'"
  by (auto simp: message_def Response_def)

text \<open>
  C3. For distinct users A and B (B the user the identifier resolves to) and a table
  without duplicate rows, \<open>add_friend\<close> answers ``friend added'' exactly when the edge
  from A to B was absent and ``user already your friend'' exactly when it was present;
  \<open>remove_friend\<close> answers ``friend removed'' exactly when the edge was present and
  ``user is not your friend'' exactly when it was absent. So adding an absent edge twice
  answers ``friend added'' and then ``user already your friend'', and removing a present
  edge twice answers ``friend removed'' and then ``user is not your friend''.
\<close>

theorem add_remove_report:
  assumes "user request = User a" and "get_prep_value pk = Some b" and "b \<noteq> user_id a"
    and "distinct (user_friends d)"
  shows "(fst (add_friend d request pk) = message ''success'' ''friend added''
            \<longleftrightarrow> \<not> edge_exists d (user_id a) b)
       \<and> (fst (add_friend d request pk) = message ''error'' ''user already your friend''
            \<longleftrightarrow> edge_exists d (user_id a) b)
       \<and> (fst (remove_friend d request pk) = message ''success'' ''friend removed''
            \<longleftrightarrow> edge_exists d (user_id a) b)
       \<and> (fst (remove_friend d request pk) = message ''error'' ''user is not your friend''
            \<longleftrightarrow> \<not> edge_exists d (user_id a) b)
       \<and> (\<not> edge_exists d (user_id a) b \<longrightarrow>
            fst (add_friend (snd (add_friend d request pk)) request pk)
              = message ''error'' ''user already your friend'')
       \<and> (edge_exists d (user_id a) b \<longrightarrow>
            fst (remove_friend (snd (remove_friend d request pk)) request pk)
              = message ''error'' ''user is not your friend'')"
proof -
  note add = add_friend_other_distinct[OF assms(1-3)]
  note del = remove_friend_other[OF assms(1-3)]
  have first: "(fst (add_friend d request pk) = message ''success'' ''friend added''
            \<longleftrightarrow> \<not> edge_exists d (user_id a) b)
       \<and> (fst (add_friend d request pk) = message ''error'' ''user already your friend''
            \<longleftrightarrow> edge_exists d (user_id a) b)"
    by (simp add: add[OF assms(4)] edge_exists_def message_inject)
  have second: "(fst (remove_friend d request pk) = message ''success'' ''friend removed''
            \<longleftrightarrow> edge_exists d (user_id a) b)
       \<and> (fst (remove_friend d request pk) = message ''error'' ''user is not your friend''
            \<longleftrightarrow> \<not> edge_exists d (user_id a) b)"
    by (simp add: del edge_exists_def message_inject)
  have twice_add: "fst (add_friend (snd (add_friend d request pk)) request pk)
              = message ''error'' ''user already your friend''"
    if "\<not> edge_exists d (user_id a) b"
  proof -
    let ?d' = "d\<lparr>user_friends := user_friends d @ [(user_id a, b)]\<rparr>"
    have "snd (add_friend d request pk) = ?d'"
      using that by (simp add: add[OF assms(4)] edge_exists_def)
    moreover have "distinct (user_friends ?d')"
      using that assms(4) by (simp add: edge_exists_def)
    ultimately show ?thesis
      by (simp add: add_friend_other_distinct[OF assms(1-3)])
  qed
  have twice_del: "fst (remove_friend (snd (remove_friend d request pk)) request pk)
              = message ''error'' ''user is not your friend''"
    if "edge_exists d (user_id a) b"
  proof -
    let ?d' = "d\<lparr>user_friends := filter (\<lambda>r. r \<noteq> (user_id a, b)) (user_friends d)\<rparr>"
    have "snd (remove_friend d request pk) = ?d'"
      using that by (simp add: del edge_exists_def)
    then show ?thesis
      by (simp add: remove_friend_other[OF assms(1-3)])
  qed
  from first second twice_add twice_del show ?thesis by blast
qed

theorem add_remove_report_witness:
  "user (req alice) = User alice \<and> get_prep_value (PyStr ''2'') = Some 2
   \<and> 2 \<noteq> user_id alice \<and> distinct (user_friends db0)
   \<and> fst (add_friend db0 (req alice) (PyStr ''2'')) = message ''success'' ''friend added''
   \<and> fst (add_friend (snd (add_friend db0 (req alice) (PyStr ''2''))) (req alice) (PyStr ''2''))
       = message ''error'' ''user already your friend''
   \<and> fst (remove_friend db0 (req alice) (PyStr ''2'')) = message ''error'' ''user is not your friend''"
proof -
  have h1: "user (req alice) = User alice" by (simp add: req_def)
  have h2: "get_prep_value (PyStr ''2'') = Some 2" by (simp add: int_of_str_simps)
  have h3: "2 \<noteq> user_id alice" by (simp add: alice_def)
  have h4: "distinct (user_friends db0)" by (simp add: db0_def)
  have absent: "\<not> edge_exists db0 (user_id alice) 2" by (simp add: edge_exists_def db0_def)
  from add_remove_report[OF h1 h2 h3 h4] absent h1 h2 h3 h4 show ?thesis by blast
qed


text \<open>
  C6. For distinct users A and B, \<open>add_friend\<close> and \<open>remove_friend\<close> leave every row
  other than the edge from A to B as it was, in number and in order: the reverse edge
  from B to A is neither created nor removed, \<open>add_friend\<close> removes no row,
  \<open>remove_friend\<close> creates none, and users and posts are untouched.
\<close>

theorem edge_frame:
  assumes "user request = User a" and "get_prep_value pk = Some b" and "b \<noteq> user_id a"
  shows "filter (\<lambda>e. e \<noteq> (user_id a, b)) (user_friends (snd (add_friend d request pk)))
           = filter (\<lambda>e. e \<noteq> (user_id a, b)) (user_friends d)
       \<and> filter (\<lambda>e. e \<noteq> (user_id a, b)) (user_friends (snd (remove_friend d request pk)))
           = filter (\<lambda>e. e \<noteq> (user_id a, b)) (user_friends d)
       \<and> edge_exists (snd (add_friend d request pk)) b (user_id a) = edge_exists d b (user_id a)
       \<and> edge_exists (snd (remove_friend d request pk)) b (user_id a) = edge_exists d b (user_id a)
       \<and> set (user_friends d) \<subseteq> set (user_friends (snd (add_friend d request pk)))
       \<and> set (user_friends (snd (remove_friend d request pk))) \<subseteq> set (user_friends d)
       \<and> users (snd (add_friend d request pk)) = users d
       \<and> posts (snd (add_friend d request pk)) = posts d
       \<and> users (snd (remove_friend d request pk)) = users d
       \<and> posts (snd (remove_friend d request pk)) = posts d"
proof -
  let ?e = "(user_id a, b)"
  have rev_ne: "(b, user_id a) \<noteq> ?e" using assms(3) by simp
  have add_rows: "user_friends (snd (add_friend d request pk)) = user_friends d
      \<or> user_friends (snd (add_friend d request pk)) = user_friends d @ [?e]"
    by (simp add: add_friend_other[OF assms] split: list.splits)
  have add_rest: "users (snd (add_friend d request pk)) = users d
      \<and> posts (snd (add_friend d request pk)) = posts d"
    by (simp add: add_friend_other[OF assms] split: list.splits)
  have del_rows: "user_friends (snd (remove_friend d request pk)) = user_friends d
      \<or> user_friends (snd (remove_friend d request pk)) = filter (\<lambda>e. e \<noteq> ?e) (user_friends d)"
    by (simp add: remove_friend_other[OF assms])
  have del_rest: "users (snd (remove_friend d request pk)) = users d
      \<and> posts (snd (remove_friend d request pk)) = posts d"
    by (simp add: remove_friend_other[OF assms])
  have c1: "filter (\<lambda>e. e \<noteq> ?e) (user_friends (snd (add_friend d request pk)))
           = filter (\<lambda>e. e \<noteq> ?e) (user_friends d)"
    using add_rows by auto
  have c2: "filter (\<lambda>e. e \<noteq> ?e) (user_friends (snd (remove_friend d request pk)))
           = filter (\<lambda>e. e \<noteq> ?e) (user_friends d)"
    using del_rows by auto
  have c3: "edge_exists (snd (add_friend d request pk)) b (user_id a) = edge_exists d b (user_id a)"
    using add_rows rev_ne by (auto simp: edge_exists_def)
  have c4: "edge_exists (snd (remove_friend d request pk)) b (user_id a) = edge_exists d b (user_id a)"
    using del_rows rev_ne by (auto simp: edge_exists_def)
  have c5: "set (user_friends d) \<subseteq> set (user_friends (snd (add_friend d request pk)))"
    using add_rows by auto
  have c6: "set (user_friends (snd (remove_friend d request pk))) \<subseteq> set (user_friends d)"
    using del_rows by auto
  from c1 c2 c3 c4 c5 c6 add_rest del_rest show ?thesis by blast
qed

theorem edge_frame_witness:
  "user (req alice) = User alice \<and> get_prep_value (PyStr ''2'') = Some 2 \<and> 2 \<noteq> user_id alice
   \<and> edge_exists (snd (remove_friend db1 (req alice) (PyStr ''2''))) 2 (user_id alice)
   \<and> snd (remove_friend db1 (req alice) (PyStr ''2'')) = db0\<lparr>user_friends := [(2, 1)]\<rparr>"
proof -
  have h1: "user (req alice) = User alice" by (simp add: req_def)
  have h2: "get_prep_value (PyStr ''2'') = Some 2" by (simp add: int_of_str_simps)
  have h3: "2 \<noteq> user_id alice" by (simp add: alice_def)
  have before: "edge_exists db1 2 (user_id alice)"
    by (simp add: edge_exists_def db1_def alice_def)
  have after: "snd (remove_friend db1 (req alice) (PyStr ''2'')) = db0\<lparr>user_friends := [(2, 1)]\<rparr>"
    using remove_friend_other[OF h1 h2 h3, of db1] by (simp add: db1_def alice_def)
  from edge_frame[OF h1 h2 h3, of db1] before after h1 h2 h3 show ?thesis by blast
qed

text \<open>
  C4 (as amended). For distinct users A and B and a table without duplicate rows, adding
  an edge that exists and removing an edge that does not exist raise nothing and change
  nothing: the response is sent with HTTP 200, and its body carries the status
  \<open>error\<close> with an informational message.
\<close>

theorem idempotent_outcome_status:
  assumes "user request = User a" and "get_prep_value pk = Some b" and "b \<noteq> user_id a"
    and "distinct (user_friends d)"
  shows "(edge_exists d (user_id a) b \<longrightarrow>
            add_friend d request pk =
              (Inr \<lparr>status_code = 200,
                    body = Dict [(''status'', ''error''),
                                 (''message'', ''user already your friend'')]\<rparr>, d))
       \<and> (\<not> edge_exists d (user_id a) b \<longrightarrow>
            remove_friend d request pk =
              (Inr \<lparr>status_code = 200,
                    body = Dict [(''status'', ''error''),
                                 (''message'', ''user is not your friend'')]\<rparr>, d))"
  by (simp add: add_friend_other_distinct[OF assms] remove_friend_other[OF assms(1-3)]
      edge_exists_def message_def Response_def)

theorem idempotent_outcome_status_witness:
  "user (req alice) = User alice \<and> get_prep_value (PyStr ''2'') = Some 2 \<and> 2 \<noteq> user_id alice
   \<and> distinct (user_friends db1) \<and> edge_exists db1 (user_id alice) 2
   \<and> add_friend db1 (req alice) (PyStr ''2'') =
       (Inr \<lparr>status_code = 200,
             body = Dict [(''status'', ''error''),
                          (''message'', ''user already your friend'')]\<rparr>, db1)"
proof -
  have h1: "user (req alice) = User alice" by (simp add: req_def)
  have h2: "get_prep_value (PyStr ''2'') = Some 2" by (simp add: int_of_str_simps)
  have h3: "2 \<noteq> user_id alice" by (simp add: alice_def)
  have h4: "distinct (user_friends db1)" by (simp add: db1_def)
  have present: "edge_exists db1 (user_id alice) 2"
    by (simp add: edge_exists_def db1_def alice_def)
  from idempotent_outcome_status[OF h1 h2 h3 h4] present h1 h2 h3 h4 show ?thesis by blast
qed

text \<open>
  C4 as stated fails: for alice and bob, adding the existing edge and removing the
  missing edge are both answered with the status \<open>error\<close>, not \<open>success\<close>.
\<close>

theorem already_exists_status_counterexample:
  "body_status (fst (add_friend db1 (req alice) (PyStr ''2''))) = Some ''error''
   \<and> body_status (fst (add_friend db1 (req alice) (PyStr ''2''))) \<noteq> Some ''success''
   \<and> body_status (fst (remove_friend db0 (req alice) (PyStr ''2''))) = Some ''error''
   \<and> body_status (fst (remove_friend db0 (req alice) (PyStr ''2''))) \<noteq> Some ''success''"
proof -
  have h1: "user (req alice) = User alice" by (simp add: req_def)
  have h2: "get_prep_value (PyStr ''2'') = Some 2" by (simp add: int_of_str_simps)
  have h3: "2 \<noteq> user_id alice" by (simp add: alice_def)
  have "fst (add_friend db1 (req alice) (PyStr ''2'')) = message ''error'' ''user already your friend''"
    using add_friend_other[OF h1 h2 h3, of db1] by (simp add: db1_def alice_def)
  moreover have "fst (remove_friend db0 (req alice) (PyStr ''2'')) = message ''error'' ''user is not your friend''"
    using remove_friend_other[OF h1 h2 h3, of db0] by (simp add: db0_def alice_def)
  ultimately show ?thesis by (simp add: message_def Response_def)
qed

text \<open>
  C2. The guard of both actions compares the identifier with \<open>'me'\<close> and with the
  integer id of the requester. The identifier of a request is text, so alice (id 1)
  posting to \<open>/users/1/add_friend\<close> passes the guard: the edge from alice to alice is
  created and reported as added, and \<open>remove_friend\<close> with the same identifier removes
  it again and reports it as removed.
\<close>

theorem self_edge_by_numeric_id:
  "user (req alice) = User alice
   \<and> get_prep_value (PyStr ''1'') = Some (user_id alice)
   \<and> add_friend db0 (req alice) (PyStr ''1'')
       = (message ''success'' ''friend added'', db0\<lparr>user_friends := [(1, 1)]\<rparr>)
   \<and> remove_friend (db0\<lparr>user_friends := [(1, 1)]\<rparr>) (req alice) (PyStr ''1'')
       = (message ''success'' ''friend removed'', db0)"
  by (simp add: add_friend_def remove_friend_def get_or_create_def filter_delete_def
      req_def alice_def db0_def message_def int_of_str_simps)

section \<open>Properties of the listings\<close>

lemma filter_serializer_loop_eq:
  "filter_serializer_loop us k acc = acc @ filter (\<lambda>u. getitem u k) us"
  by (induction us arbitrary: acc) auto

lemma filter_serializer_eq:
  "filter_serializer us k = filter (\<lambda>u. getitem u k) us"
  by (simp add: filter_serializer_def filter_serializer_loop_eq)

lemma results_list_action:
  assumes "user request = User viewer"
  shows "results (list_action d request k)
           = filter (\<lambda>u. getitem u k) (serializer_data d viewer (evaluated_page d request))"
  using assms
  by (simp add: list_action_def list_response_def evaluated_page_def Let_def
      get_paginated_response_def Response_def filter_serializer_eq serializer_data_def
      split: sum.splits option.splits)

lemma get_queryset_db1: "get_queryset db1 = [alice, bob, carol]"
  by (simp add: get_queryset_def db1_def db0_def alice_def bob_def carol_def)

lemma get_queryset_db2: "get_queryset db2 = [alice, bob, carol, dave]"
  by (simp add: get_queryset_def db2_def alice_def bob_def carol_def dave_def)

text \<open>
  C1. For a viewer and every candidate on the page that the request evaluates, the
  candidate is listed by \<open>friends\<close> if and only if both directed edges exist (the
  candidate follows the viewer and the viewer follows the candidate), by \<open>followers\<close>
  if and only if the candidate follows the viewer, and by \<open>followed\<close> if and only if
  the viewer follows the candidate. So over the same page the friends are exactly the
  users listed both as followers and as followed.
\<close>

theorem friends_iff_both_edges:
  assumes "user request = User viewer"
  shows "(\<forall>c \<in> set (evaluated_page d request).
            (to_representation d viewer c \<in> set (results (friends d request))
               \<longleftrightarrow> edge_exists d (user_id c) (user_id viewer)
                     \<and> edge_exists d (user_id viewer) (user_id c))
          \<and> (to_representation d viewer c \<in> set (results (followers d request))
               \<longleftrightarrow> edge_exists d (user_id c) (user_id viewer))
          \<and> (to_representation d viewer c \<in> set (results (followed d request))
               \<longleftrightarrow> edge_exists d (user_id viewer) (user_id c)))
       \<and> set (results (friends d request))
           = set (results (followers d request)) \<inter> set (results (followed d request))
       \<and> results (friends d request) = filter is_followed (results (followers d request))"
proof -
  note res = results_list_action[OF assms, of d]
  have flags: "is_friends (to_representation d viewer c)
        = (is_follower (to_representation d viewer c) \<and> is_followed (to_representation d viewer c))"
    for c by (simp add: to_representation_def)
  have member: "\<forall>c \<in> set (evaluated_page d request).
            (to_representation d viewer c \<in> set (results (friends d request))
               \<longleftrightarrow> edge_exists d (user_id c) (user_id viewer)
                     \<and> edge_exists d (user_id viewer) (user_id c))
          \<and> (to_representation d viewer c \<in> set (results (followers d request))
               \<longleftrightarrow> edge_exists d (user_id c) (user_id viewer))
          \<and> (to_representation d viewer c \<in> set (results (followed d request))
               \<longleftrightarrow> edge_exists d (user_id viewer) (user_id c))"
    by (auto simp: res friends_def followers_def followed_def serializer_data_def
        to_representation_def)
  have lists: "results (friends d request) = filter is_followed (results (followers d request))"
    by (simp add: res friends_def followers_def serializer_data_def filter_map o_def flags
        conj_commute)
  have sets: "set (results (friends d request))
           = set (results (followers d request)) \<inter> set (results (followed d request))"
    by (auto simp: res friends_def followers_def followed_def serializer_data_def flags)
  from member sets lists show ?thesis by blast
qed

theorem friends_iff_both_edges_witness:
  "user (req alice) = User alice
   \<and> bob \<in> set (evaluated_page db1 (req alice))
   \<and> to_representation db1 alice bob \<in> set (results (friends db1 (req alice)))
   \<and> edge_exists db1 (user_id bob) (user_id alice) \<and> edge_exists db1 (user_id alice) (user_id bob)
   \<and> carol \<in> set (evaluated_page db1 (req alice))
   \<and> to_representation db1 alice carol \<notin> set (results (friends db1 (req alice)))"
proof -
  have h: "user (req alice) = User alice" by (simp add: req_def)
  have page: "evaluated_page db1 (req alice) = [alice, bob, carol]"
    by (simp add: evaluated_page_def filter_queryset_def paginate_queryset_def req_def
        get_queryset_db1)
  have edges: "edge_exists db1 (user_id bob) (user_id alice)"
      "edge_exists db1 (user_id alice) (user_id bob)"
      "\<not> edge_exists db1 (user_id carol) (user_id alice)"
    by (simp_all add: edge_exists_def db1_def db0_def alice_def bob_def carol_def)
  have members: "bob \<in> set (evaluated_page db1 (req alice))"
      "carol \<in> set (evaluated_page db1 (req alice))"
    by (simp_all add: page)
  from friends_iff_both_edges[OF h, of db1] members edges h show ?thesis by blast
qed


lemma paginate_valid:
  assumes "paginator request = Some p" and "0 < page_size p" and "1 \<le> page_number p"
    and "page_number p \<le> num_pages (length queryset) (page_size p)"
  shows "paginate_queryset request queryset
           = Inr (Some (take (page_size p) (drop ((page_number p - 1) * page_size p) queryset)))"
  using assms by (simp add: paginate_queryset_def)

text \<open>
  C5. With pagination on and a valid page number, each of the three views takes the page
  of \<open>page_size\<close> rows from the list of active users first and only then drops the
  candidates whose flag is false; the count reported is that of the whole list. A
  returned page therefore has at most \<open>page_size\<close> items and may have fewer although
  more matching users exist: with four users, two a page, and alice following carol and
  dave, the first page of \<open>followed\<close> is empty while two users match overall.
\<close>

theorem filter_after_pagination:
  assumes "user request = User viewer" and "paginator request = Some p"
    and "0 < page_size p" and "1 \<le> page_number p"
    and "page_number p \<le> num_pages (length (filter_queryset request (get_queryset d))) (page_size p)"
  shows "list_action d request key
           = Inr (Response (Page (length (filter_queryset request (get_queryset d)))
               (filter (\<lambda>u. getitem u key)
                  (serializer_data d viewer
                     (take (page_size p) (drop ((page_number p - 1) * page_size p)
                        (filter_queryset request (get_queryset d))))))))
       \<and> results (friends d request)
           = filter is_friends (serializer_data d viewer
               (take (page_size p) (drop ((page_number p - 1) * page_size p)
                  (filter_queryset request (get_queryset d)))))
       \<and> results (followers d request)
           = filter is_follower (serializer_data d viewer
               (take (page_size p) (drop ((page_number p - 1) * page_size p)
                  (filter_queryset request (get_queryset d)))))
       \<and> results (followed d request)
           = filter is_followed (serializer_data d viewer
               (take (page_size p) (drop ((page_number p - 1) * page_size p)
                  (filter_queryset request (get_queryset d)))))
       \<and> length (results (list_action d request key)) \<le> page_size p
       \<and> results (followed db2 (paged alice 2 1)) = []
       \<and> length (filter is_followed (serializer_data db2 alice (get_queryset db2))) = 2"
proof -
  let ?q = "filter_queryset request (get_queryset d)"
  let ?page = "take (page_size p) (drop ((page_number p - 1) * page_size p) ?q)"
  note pag = paginate_valid[OF assms(2-5)]
  have resp: "list_action d request k
           = Inr (Response (Page (length ?q)
               (filter (\<lambda>u. getitem u k) (serializer_data d viewer ?page))))" for k
    using assms(1)
    by (simp add: list_action_def list_response_def Let_def pag get_paginated_response_def
        filter_serializer_eq)
  have res: "results (list_action d request k)
           = filter (\<lambda>u. getitem u k) (serializer_data d viewer ?page)" for k
    by (simp add: resp Response_def)
  have short: "length (results (list_action d request key)) \<le> page_size p"
  proof -
    have "length (results (list_action d request key)) \<le> length (serializer_data d viewer ?page)"
      unfolding res by (rule length_filter_le)
    also have "\<dots> \<le> page_size p" by (simp add: serializer_data_def)
    finally show ?thesis .
  qed
  have three: "results (friends d request) = filter is_friends (serializer_data d viewer ?page)"
      "results (followers d request) = filter is_follower (serializer_data d viewer ?page)"
      "results (followed d request) = filter is_followed (serializer_data d viewer ?page)"
    using res[of IsFriends] res[of IsFollower] res[of IsFollowed]
    by (simp_all add: friends_def followers_def followed_def)
  have q2: "filter_queryset (paged alice 2 1) (get_queryset db2) = [alice, bob, carol, dave]"
    by (simp add: filter_queryset_def paged_def req_def get_queryset_db2)
  have pg: "paginate_queryset (paged alice 2 1) [alice, bob, carol, dave] = Inr (Some [alice, bob])"
    by (simp add: paginate_queryset_def paged_def req_def num_pages_def)
  have u2: "user (paged alice 2 1) = User alice" by (simp add: paged_def req_def)
  have flags: "\<not> is_followed (to_representation db2 alice alice)"
      "\<not> is_followed (to_representation db2 alice bob)"
      "is_followed (to_representation db2 alice carol)"
      "is_followed (to_representation db2 alice dave)"
    by (simp_all add: to_representation_def edge_exists_def db2_def alice_def bob_def
        carol_def dave_def)
  have "evaluated_page db2 (paged alice 2 1) = [alice, bob]"
    unfolding evaluated_page_def Let_def q2 pg by simp
  then have ex1: "results (followed db2 (paged alice 2 1)) = []"
    unfolding followed_def results_list_action[OF u2] by (simp add: serializer_data_def flags)
  have ex2: "length (filter is_followed (serializer_data db2 alice (get_queryset db2))) = 2"
    by (simp add: get_queryset_db2 serializer_data_def flags)
  from resp[of key] three short ex1 ex2 show ?thesis by blast
qed

theorem filter_after_pagination_witness:
  "user (paged alice 2 2) = User alice
   \<and> paginator (paged alice 2 2) = Some \<lparr>page_size = 2, page_number = 2\<rparr>
   \<and> page_number \<lparr>page_size = 2, page_number = 2\<rparr>
        \<le> num_pages (length (filter_queryset (paged alice 2 2) (get_queryset db2))) 2
   \<and> list_action db2 (paged alice 2 2) IsFollowed
       = Inr (Response (Page 4 [to_representation db2 alice carol, to_representation db2 alice dave]))"
proof -
  let ?p = "\<lparr>page_size = 2, page_number = 2\<rparr>"
  have h1: "user (paged alice 2 2) = User alice" by (simp add: paged_def req_def)
  have h2: "paginator (paged alice 2 2) = Some ?p" by (simp add: paged_def req_def)
  have h3: "0 < page_size ?p" by simp
  have h4: "1 \<le> page_number ?p" by simp
  have q: "filter_queryset (paged alice 2 2) (get_queryset db2) = [alice, bob, carol, dave]"
    by (simp add: filter_queryset_def paged_def req_def get_queryset_db2)
  have h5: "page_number ?p
      \<le> num_pages (length (filter_queryset (paged alice 2 2) (get_queryset db2))) (page_size ?p)"
    by (simp add: q num_pages_def)
  have flags: "is_followed (to_representation db2 alice carol)"
      "is_followed (to_representation db2 alice dave)"
    by (simp_all add: to_representation_def edge_exists_def db2_def alice_def carol_def dave_def)
  from filter_after_pagination[OF h1 h2 h3 h4 h5, of IsFollowed]
  have "list_action db2 (paged alice 2 2) IsFollowed
       = Inr (Response (Page 4 [to_representation db2 alice carol, to_representation db2 alice dave]))"
    by (simp add: q serializer_data_def flags Response_def)
  with h1 h2 h5 show ?thesis by simp
qed

section \<open>Properties of the account actions\<close>

lemma paginate_subset:
  "paginate_queryset request q = Inr (Some page) \<Longrightarrow> set page \<subseteq> set q"
  by (auto simp: paginate_queryset_def split: option.splits if_splits
      dest!: in_set_takeD in_set_dropD)

lemma evaluated_page_subset:
  "set (evaluated_page d request) \<subseteq> set (filter_queryset request (get_queryset d))"
proof (cases "paginate_queryset request (filter_queryset request (get_queryset d))")
  case (Inl e)
  then show ?thesis by (simp add: evaluated_page_def Let_def)
next
  case (Inr r)
  show ?thesis
  proof (cases r)
    case None
    with Inr show ?thesis by (simp add: evaluated_page_def Let_def)
  next
    case (Some page)
    with Inr paginate_subset[of request _ page] show ?thesis
      by (simp add: evaluated_page_def Let_def)
  qed
qed

lemma results_ids:
  "repr_id ` set (results (list_action d request k)) \<subseteq> user_id ` set (evaluated_page d request)"
proof (cases "user request")
  case AnonymousUser
  then show ?thesis by (simp add: list_action_def)
next
  case (User viewer)
  show ?thesis
    by (auto simp: results_list_action[OF User] serializer_data_def to_representation_def)
qed

lemma get_queryset_subset: "set (get_queryset d) = {u \<in> set (users d). is_active u}"
  by (auto simp: get_queryset_def)

lemma get_object_in_users:
  assumes "get_object d request pk = Inr (User instance)"
    and "\<forall>a. user request = User a \<longrightarrow> a \<in> set (users d)"
    and "\<forall>q. set (filter_backends request q) \<subseteq> set q"
  shows "instance \<in> set (users d)"
proof (cases "py_eq pk (PyStr ''me'')")
  case True
  with assms(1) have "user request = User instance" by (simp add: get_object_def)
  with assms(2) show ?thesis by simp
next
  case False
  with assms(1) obtain k where
    found: "filter (\<lambda>u. user_id u = k) (filter_queryset request (get_queryset d)) = [instance]"
    by (auto simp: get_object_def split: option.splits list.splits if_splits)
  have "instance \<in> set (filter (\<lambda>u. user_id u = k) (filter_queryset request (get_queryset d)))"
    by (simp only: found list.set_intros)
  then have "instance \<in> set (filter_queryset request (get_queryset d))" by simp
  with assms(3) have "instance \<in> set (get_queryset d)"
    by (auto simp: filter_queryset_def)
  then show ?thesis by (simp add: get_queryset_subset)
qed

lemma save_existing:
  assumes "instance \<in> set (users d)" and "distinct (map user_id (users d))"
    and "user_id instance' = user_id instance"
  shows "save instance' d = d\<lparr>users := map (\<lambda>u. if u = instance then instance' else u) (users d)\<rparr>"
proof -
  have same: "(user_id u = user_id instance) = (u = instance)" if "u \<in> set (users d)" for u
    using that assms(1,2) by (auto simp: distinct_map inj_on_def)
  have "map (\<lambda>u. if user_id u = user_id instance' then instance' else u) (users d)
      = map (\<lambda>u. if u = instance then instance' else u) (users d)"
    by (rule map_cong) (simp_all add: same assms(3))
  moreover have "user_id instance' \<in> set (map user_id (users d))"
    using assms(1,3) by auto
  ultimately show ?thesis by (simp add: save_def)
qed

lemma updated_row:
  assumes "distinct (map f xs)" and "i \<in> set xs"
    and "y \<in> set (map (\<lambda>u. if u = i then g u else u) xs)" and "f y = f i"
  shows "y = g i"
proof -
  from assms(3) obtain u where u: "u \<in> set xs" "y = (if u = i then g u else u)"
    unfolding set_map by (elim imageE) simp
  show ?thesis
  proof (cases "u = i")
    case True
    with u(2) show ?thesis by simp
  next
    case False
    with u(2) have "y = u" by simp
    with assms(4) have "f u = f i" by simp
    moreover have "inj_on f (set xs)" using assms(1) by (simp add: distinct_map)
    ultimately have "u = i" using u(1) assms(2) by (rule_tac inj_onD)
    with False show ?thesis by contradiction
  qed
qed

lemma deactivated_absent:
  assumes "i \<in> set (users d)" and "distinct (map user_id (users d))"
  shows "user_id i \<notin> user_id ` set (get_queryset
           (d\<lparr>users := map (\<lambda>u. if u = i then u\<lparr>is_active := False\<rparr> else u) (users d)\<rparr>))"
proof
  let ?rows = "map (\<lambda>u. if u = i then u\<lparr>is_active := False\<rparr> else u) (users d)"
  assume "user_id i \<in> user_id ` set (get_queryset (d\<lparr>users := ?rows\<rparr>))"
  then obtain r where r: "user_id i = user_id r" "r \<in> set (get_queryset (d\<lparr>users := ?rows\<rparr>))"
    by (rule imageE)
  from r(2) have row: "r \<in> set ?rows" and active: "is_active r"
    by (simp_all add: get_queryset_subset)
  from r(1) have "user_id r = user_id i" by (rule sym)
  with assms(2,1) row have "r = i\<lparr>is_active := False\<rparr>" by (rule updated_row)
  then have "\<not> is_active r" by simp
  with active show False by contradiction
qed

text \<open>
  C7. Where every user has one row (the primary key is unique), the requester was
  loaded from this database and the filter backends of the request only select rows:
  \<open>destroy\<close> changes nothing when the account cannot be looked up; otherwise it answers
  with success and the only change to the database is that the row of the addressed
  user has \<open>is_active\<close> false. The row stays, its other attributes and all other rows
  are as before, no follow edge and no post is deleted, and afterwards the user is
  neither among the active users nor in the friends, followers or followed listing of
  any request.
\<close>

theorem destroy_is_logical:
  assumes pk_unique: "distinct (map user_id (users d))"
    and loaded: "\<forall>a. user request = User a \<longrightarrow> a \<in> set (users d)"
    and selects: "\<forall>q. set (filter_backends request q) \<subseteq> set q"
  shows "(\<forall>e. get_object d request pk = Inl e \<longrightarrow> destroy d request pk = (Inl e, d))
       \<and> (get_object d request pk = Inr AnonymousUser \<longrightarrow>
            destroy d request pk = (Inl NotImplementedError, d))
       \<and> (\<forall>instance. get_object d request pk = Inr (User instance) \<longrightarrow>
            instance \<in> set (users d)
          \<and> destroy d request pk =
              (Inr \<lparr>status_code = 200,
                    body = Dict [(''status'', ''success''),
                                 (''message'', ''Account is not active now'')]\<rparr>,
               d\<lparr>users := map (\<lambda>u. if u = instance then u\<lparr>is_active := False\<rparr> else u)
                                (users d)\<rparr>)
          \<and> length (users (snd (destroy d request pk))) = length (users d)
          \<and> user_friends (snd (destroy d request pk)) = user_friends d
          \<and> posts (snd (destroy d request pk)) = posts d
          \<and> user_id instance \<notin> user_id ` set (get_queryset (snd (destroy d request pk)))
          \<and> (\<forall>request' key. (\<forall>q. set (filter_backends request' q) \<subseteq> set q) \<longrightarrow>
                user_id instance
                  \<notin> repr_id ` set (results (list_action (snd (destroy d request pk)) request' key))))"
  (is "?fail \<and> ?anon \<and> (\<forall>i. ?addressed i \<longrightarrow> ?deactivated i)")
proof -
  have fail: ?fail by (simp add: destroy_def)
  have anon: ?anon by (simp add: destroy_def)
  have succ: "?deactivated i" if obj: "?addressed i" for i
  proof -
    let ?d' = "d\<lparr>users := map (\<lambda>u. if u = i then u\<lparr>is_active := False\<rparr> else u) (users d)\<rparr>"
    have mem: "i \<in> set (users d)"
      by (rule get_object_in_users[OF obj loaded selects])
    have sv: "save (i\<lparr>is_active := False\<rparr>) d = ?d'"
    proof -
      have "save (i\<lparr>is_active := False\<rparr>) d
          = d\<lparr>users := map (\<lambda>u. if u = i then i\<lparr>is_active := False\<rparr> else u) (users d)\<rparr>"
        by (rule save_existing[OF mem pk_unique]) simp
      also have "map (\<lambda>u. if u = i then i\<lparr>is_active := False\<rparr> else u) (users d)
          = map (\<lambda>u. if u = i then u\<lparr>is_active := False\<rparr> else u) (users d)"
        by (rule map_cong) simp_all
      finally show ?thesis .
    qed
    have eq: "destroy d request pk =
              (Inr \<lparr>status_code = 200,
                    body = Dict [(''status'', ''success''),
                                 (''message'', ''Account is not active now'')]\<rparr>, ?d')"
      by (simp add: destroy_def obj sv HTTP_200_OK_def)
    have after: "snd (destroy d request pk) = ?d'"
      by (simp only: eq snd_conv)
    have absent: "user_id i \<notin> user_id ` set (get_queryset ?d')"
      by (rule deactivated_absent[OF mem pk_unique])
    have listings: "\<forall>request' key. (\<forall>q. set (filter_backends request' q) \<subseteq> set q) \<longrightarrow>
        user_id i \<notin> repr_id ` set (results (list_action ?d' request' key))"
    proof (intro allI impI)
      fix request' :: request and key :: filter_key
      assume sel: "\<forall>q. set (filter_backends request' q) \<subseteq> set q"
      have "repr_id ` set (results (list_action ?d' request' key))
          \<subseteq> user_id ` set (evaluated_page ?d' request')"
        by (rule results_ids)
      also have "\<dots> \<subseteq> user_id ` set (filter_queryset request' (get_queryset ?d'))"
        by (rule image_mono) (rule evaluated_page_subset)
      also have "\<dots> \<subseteq> user_id ` set (get_queryset ?d')"
        by (rule image_mono) (simp add: filter_queryset_def sel)
      finally show "user_id i \<notin> repr_id ` set (results (list_action ?d' request' key))"
        using absent by (rule contra_subsetD)
    qed
    have len: "length (users ?d') = length (users d)" by simp
    have edges: "user_friends ?d' = user_friends d" by simp
    have ps: "posts ?d' = posts d" by simp
    show ?thesis
      unfolding after
      by (intro conjI) (rule mem eq len edges ps absent listings)+
  qed
  have third: "\<forall>i. ?addressed i \<longrightarrow> ?deactivated i"
    by (intro allI impI) (rule succ)
  from fail anon third show ?thesis by (intro conjI)
qed

theorem destroy_is_logical_witness:
  "distinct (map user_id (users db1))
   \<and> user (req alice) = User alice \<and> alice \<in> set (users db1)
   \<and> (\<forall>q. set (filter_backends (req alice) q) \<subseteq> set q)
   \<and> get_object db1 (req alice) (PyStr ''me'') = Inr (User alice)
   \<and> snd (destroy db1 (req alice) (PyStr ''me''))
       = db1\<lparr>users := [bob, alice\<lparr>is_active := False\<rparr>, carol]\<rparr>
   \<and> user_friends (snd (destroy db1 (req alice) (PyStr ''me''))) = [(1, 2), (2, 1)]
   \<and> user_id alice \<notin> repr_id ` set (results (followers (snd (destroy db1 (req alice) (PyStr ''me''))) (req bob)))"
proof -
  have h1: "distinct (map user_id (users db1))"
    by (simp add: db1_def db0_def alice_def bob_def carol_def)
  have h2: "\<forall>a. user (req alice) = User a \<longrightarrow> a \<in> set (users db1)"
    by (simp add: req_def db1_def db0_def)
  have h3: "\<forall>q. set (filter_backends (req a) q) \<subseteq> set q" for a
    by (simp add: req_def)
  have obj: "get_object db1 (req alice) (PyStr ''me'') = Inr (User alice)"
    by (simp add: get_object_def req_def)
  have ne: "bob \<noteq> alice" "carol \<noteq> alice" by (simp_all add: alice_def bob_def carol_def)
  have m: "map (\<lambda>u. if u = alice then u\<lparr>is_active := False\<rparr> else u) (users db1)
      = [bob, alice\<lparr>is_active := False\<rparr>, carol]"
    by (simp add: db1_def db0_def ne)
  have e: "user_friends db1 = [(1, 2), (2, 1)]" by (simp add: db1_def)
  let ?d' = "snd (destroy db1 (req alice) (PyStr ''me''))"
  note at_alice = destroy_is_logical[OF h1 h2 h3, of "PyStr ''me''",
      THEN conjunct2, THEN conjunct2, rule_format, OF obj]
  note eq = at_alice[THEN conjunct2, THEN conjunct1]
  note listed = at_alice[THEN conjunct2, THEN conjunct2, THEN conjunct2, THEN conjunct2,
      THEN conjunct2, THEN conjunct2, rule_format, OF h3[of bob, rule_format], of IsFollower]
  have w0: "?d' = db1\<lparr>users := map (\<lambda>u. if u = alice then u\<lparr>is_active := False\<rparr> else u)
                                (users db1)\<rparr>"
    by (simp only: eq snd_conv)
  have w1: "?d' = db1\<lparr>users := [bob, alice\<lparr>is_active := False\<rparr>, carol]\<rparr>"
    by (simp only: w0 m)
  have w2: "user_friends ?d' = [(1, 2), (2, 1)]"
    by (simp add: w1 e)
  have w3: "user_id alice \<notin> repr_id ` set (results (followers ?d' (req bob)))"
    unfolding followers_def by (rule listed)
  have u: "user (req alice) = User alice" by (simp add: req_def)
  have a: "alice \<in> set (users db1)" by (simp add: db1_def db0_def)
  from h1 u a h3[of alice] obj w1 w2 w3 show ?thesis by (intro conjI)
qed

lemma change_password_unfold:
  assumes "user request = User u" and "get_object d request pk = Inr (User i)"
  shows "change_password se d request pk =
     (if se (data request) = [] then
        (case data_getitem request ''old_password'' of
           Inl e \<Rightarrow> (Inl e, d)
         | Inr old_password \<Rightarrow>
             if \<not> check_password i old_password then
               (Inr \<lparr>status_code = 400,
                     body = Errors [(''old_password'', [''Wrong password.''])]\<rparr>, d)
             else
               (case data_getitem request ''new_password'' of
                  Inl e \<Rightarrow> (Inl e, d)
                | Inr new_password \<Rightarrow>
                    (message ''success'' ''Password updated successfully'',
                     save (set_password i new_password) d)))
      else (Inr \<lparr>status_code = 400, body = Errors (se (data request))\<rparr>, d))"
  using assms
  by (simp add: change_password_def HTTP_400_BAD_REQUEST_def message_def split: sum.splits)

lemma change_password_changed:
  assumes "snd (change_password se d request pk) \<noteq> d"
  shows "\<exists>i old new. get_object d request pk = Inr (User i)
          \<and> se (data request) = []
          \<and> data_getitem request ''old_password'' = Inr old \<and> check_password i old
          \<and> data_getitem request ''new_password'' = Inr new
          \<and> change_password se d request pk
               = (message ''success'' ''Password updated successfully'',
                  save (set_password i new) d)"
proof (cases "user request")
  case AnonymousUser
  with assms show ?thesis by (simp add: change_password_def)
next
  case (User u)
  show ?thesis
  proof (cases "get_object d request pk")
    case (Inl e)
    with assms User show ?thesis by (simp add: change_password_def)
  next
    case (Inr who)
    show ?thesis
    proof (cases who)
      case AnonymousUser
      with assms User Inr show ?thesis by (simp add: change_password_def)
    next
      case (User i)
      with Inr have obj: "get_object d request pk = Inr (User i)" by simp
      note unf = change_password_unfold[OF \<open>user request = User u\<close> obj, of se]
      from assms have valid: "se (data request) = []"
        unfolding unf by (auto split: if_splits)
      from assms valid obtain old where old: "data_getitem request ''old_password'' = Inr old"
        unfolding unf by (cases "data_getitem request ''old_password''") auto
      from assms valid old have ok: "check_password i old"
        unfolding unf by (auto split: if_splits)
      from assms valid old ok obtain new where new: "data_getitem request ''new_password'' = Inr new"
        unfolding unf by (cases "data_getitem request ''new_password''") auto
      have "change_password se d request pk
               = (message ''success'' ''Password updated successfully'',
                  save (set_password i new) d)"
        unfolding unf by (simp add: valid old ok new)
      with obj valid old ok new show ?thesis by blast
    qed
  qed
qed

text \<open>
  C8 (as amended). For every serializer of the action: when the request data passes the
  serializer's validation and the supplied current password does not verify against the
  stored one, \<open>change_password\<close> fails with HTTP 400 and ``Wrong password.''; when the
  data does not pass, it fails with HTTP 400 and the serializer's errors instead. In both
  cases the database, and so the stored password, is unchanged. When the data passes,
  the current password verifies and a new one is supplied, the instance is saved with the
  new password; and the database changes in no other case.
\<close>

theorem change_password_checks_old:
  "(\<forall>u i old. user request = User u \<and> get_object d request pk = Inr (User i)
        \<and> data_getitem request ''old_password'' = Inr old \<and> \<not> check_password i old \<longrightarrow>
        (serializer_errors (data request) = [] \<longrightarrow>
           change_password serializer_errors d request pk =
             (Inr \<lparr>status_code = 400,
                   body = Errors [(''old_password'', [''Wrong password.''])]\<rparr>, d))
      \<and> (serializer_errors (data request) \<noteq> [] \<longrightarrow>
           change_password serializer_errors d request pk =
             (Inr \<lparr>status_code = 400,
                   body = Errors (serializer_errors (data request))\<rparr>, d))
      \<and> snd (change_password serializer_errors d request pk) = d)
   \<and> (\<forall>u i old new. user request = User u \<and> get_object d request pk = Inr (User i)
        \<and> serializer_errors (data request) = []
        \<and> data_getitem request ''old_password'' = Inr old \<and> check_password i old
        \<and> data_getitem request ''new_password'' = Inr new \<longrightarrow>
        change_password serializer_errors d request pk =
          (message ''success'' ''Password updated successfully'',
           save (set_password i new) d))
   \<and> (snd (change_password serializer_errors d request pk) \<noteq> d \<longrightarrow>
        (\<exists>i old new. get_object d request pk = Inr (User i)
          \<and> serializer_errors (data request) = []
          \<and> data_getitem request ''old_password'' = Inr old \<and> check_password i old
          \<and> data_getitem request ''new_password'' = Inr new
          \<and> change_password serializer_errors d request pk
               = (message ''success'' ''Password updated successfully'',
                  save (set_password i new) d)))"
  (is "?wrong \<and> ?right \<and> ?only")
proof -
  have wrong: ?wrong
    by (intro allI impI, elim conjE) (simp add: change_password_unfold)
  have right: ?right
    by (intro allI impI, elim conjE) (simp add: change_password_unfold)
  have only: ?only
    by (intro impI) (rule change_password_changed)
  from wrong right only show ?thesis by (intro conjI)
qed

lemma get_object_me: "get_object d request (PyStr ''me'') = Inr (user request)"
  by (simp add: get_object_def)

theorem change_password_checks_old_witness:
  "user retry = User alice \<and> get_object db0 retry (PyStr ''me'') = Inr (User alice)
   \<and> data_getitem retry ''old_password'' = Inr ''rabbit'' \<and> \<not> check_password alice ''rabbit''
   \<and> required_fields (data retry) = []
   \<and> change_password required_fields db0 retry (PyStr ''me'') =
        (Inr \<lparr>status_code = 400,
              body = Errors [(''old_password'', [''Wrong password.''])]\<rparr>, db0)"
proof -
  have h1: "user retry = User alice" by (simp add: retry_def req_def)
  have h2: "get_object db0 retry (PyStr ''me'') = Inr (User alice)"
    by (simp add: get_object_me h1)
  have h3: "data_getitem retry ''old_password'' = Inr ''rabbit''"
    by (simp add: data_getitem_def retry_def req_def)
  have h4: "\<not> check_password alice ''rabbit''"
    by (simp add: check_password_def alice_def)
  have h5: "required_fields (data retry) = []"
    by (simp add: required_fields_def retry_def req_def)
  note wrong = change_password_checks_old[of retry db0 "PyStr ''me''" required_fields,
      THEN conjunct1, rule_format, of alice alice "''rabbit''"]
  from h1 h2 h3 h4 have "user retry = User alice \<and> get_object db0 retry (PyStr ''me'') = Inr (User alice)
        \<and> data_getitem retry ''old_password'' = Inr ''rabbit'' \<and> \<not> check_password alice ''rabbit''"
    by (intro conjI)
  from wrong[OF this, THEN conjunct1] h5
  have "change_password required_fields db0 retry (PyStr ''me'') =
        (Inr \<lparr>status_code = 400,
              body = Errors [(''old_password'', [''Wrong password.''])]\<rparr>, db0)"
    by (rule_tac mp)
  with h1 h2 h3 h4 h5 show ?thesis by (intro conjI)
qed

text \<open>
  C8 as stated fails: alice supplies a current password that does not verify and no new
  password; a serializer requiring both fields answers with its own error for
  \<open>new_password\<close>, not with ``Wrong password.''.
\<close>

theorem wrong_password_counterexample:
  "user guess = User alice \<and> get_object db0 guess (PyStr ''me'') = Inr (User alice)
   \<and> data_getitem guess ''old_password'' = Inr ''rabbit'' \<and> \<not> check_password alice ''rabbit''
   \<and> change_password required_fields db0 guess (PyStr ''me'') =
        (Inr \<lparr>status_code = 400,
              body = Errors [(''new_password'', [''This field is required.''])]\<rparr>, db0)
   \<and> fst (change_password required_fields db0 guess (PyStr ''me'')) \<noteq>
        Inr \<lparr>status_code = 400, body = Errors [(''old_password'', [''Wrong password.''])]\<rparr>"
proof -
  have h1: "user guess = User alice" by (simp add: guess_def req_def)
  have h2: "get_object db0 guess (PyStr ''me'') = Inr (User alice)"
    by (simp add: get_object_me h1)
  have h3: "data_getitem guess ''old_password'' = Inr ''rabbit''"
    by (simp add: data_getitem_def guess_def req_def)
  have h4: "\<not> check_password alice ''rabbit''"
    by (simp add: check_password_def alice_def)
  have h5: "required_fields (data guess) = [(''new_password'', [''This field is required.''])]"
    by (simp add: required_fields_def guess_def req_def)
  have r: "change_password required_fields db0 guess (PyStr ''me'') =
        (Inr \<lparr>status_code = 400,
              body = Errors [(''new_password'', [''This field is required.''])]\<rparr>, db0)"
    by (simp add: change_password_unfold[OF h1 h2] h5)
  have "fst (change_password required_fields db0 guess (PyStr ''me'')) \<noteq>
        Inr \<lparr>status_code = 400, body = Errors [(''old_password'', [''Wrong password.''])]\<rparr>"
    by (simp add: r)
  with h1 h2 h3 h4 r show ?thesis by (intro conjI)
qed

text \<open>
  C9. Whatever the inherited \<open>create\<close> does, a requester who is not anonymous gets the
  error response ``you already signed up'' and the database is left as it was, so no
  user is created; for an anonymous requester \<open>create\<close> is the inherited \<open>create\<close>.
\<close>

theorem create_rejects_authenticated:
  "(\<not> is_anonymous (user request) \<longrightarrow>
      create super_create d request = (message ''error'' ''you already signed up'', d))
   \<and> (is_anonymous (user request) \<longrightarrow> create super_create d request = super_create d request)"
  by (simp add: create_def message_def)

theorem create_rejects_authenticated_witness:
  "\<not> is_anonymous (user (req alice))
   \<and> create register_dave db0 (req alice) = (message ''error'' ''you already signed up'', db0)
   \<and> is_anonymous (user anonymous)
   \<and> create register_dave db0 anonymous = register_dave db0 anonymous
   \<and> users (snd (create register_dave db0 anonymous)) = [bob, alice, carol, dave]"
proof -
  have h1: "\<not> is_anonymous (user (req alice))" by (simp add: req_def)
  have h2: "is_anonymous (user anonymous)" by (simp add: anonymous_def)
  note c1 = create_rejects_authenticated[of "req alice" register_dave db0, THEN conjunct1, rule_format, OF h1]
  note c2 = create_rejects_authenticated[of anonymous register_dave db0, THEN conjunct2, rule_format, OF h2]
  have "users (snd (create register_dave db0 anonymous)) = [bob, alice, carol, dave]"
    unfolding c2 by (simp add: register_dave_def db0_def)
  with h1 h2 c1 c2 show ?thesis by (intro conjI)
qed

section \<open>Properties of the post serializer\<close>

text \<open>
  C10. For every post, \<open>is_liked\<close> is false when the requester is anonymous, whatever
  the likes of the post; for an authenticated requester it says whether that user is
  among those who liked the post.
\<close>

theorem get_is_liked_spec:
  "(is_anonymous (user request) \<longrightarrow> get_is_liked request obj = False)
   \<and> (\<forall>u. user request = User u \<longrightarrow>
         get_is_liked request obj = (user_id u \<in> set (liked_by obj)))"
  by (cases "user request") (simp_all add: get_is_liked_def is_already_liked_def)

theorem get_is_liked_spec_witness:
  "is_anonymous (user anonymous) \<and> get_is_liked anonymous post1 = False
   \<and> user (req alice) = User alice \<and> get_is_liked (req alice) post1
   \<and> user (req bob) = User bob \<and> \<not> get_is_liked (req bob) post1"
proof -
  have h1: "is_anonymous (user anonymous)" by (simp add: anonymous_def)
  have h2: "user (req alice) = User alice" "user (req bob) = User bob" by (simp_all add: req_def)
  note a = get_is_liked_spec[of anonymous post1, THEN conjunct1, rule_format, OF h1]
  note b = get_is_liked_spec[of "req alice" post1, THEN conjunct2, rule_format, OF h2(1)]
  note c = get_is_liked_spec[of "req bob" post1, THEN conjunct2, rule_format, OF h2(2)]
  have "get_is_liked (req alice) post1" unfolding b by (simp add: post1_def alice_def)
  moreover have "\<not> get_is_liked (req bob) post1" unfolding c by (simp add: post1_def bob_def)
  ultimately show ?thesis using h1 h2 a by (intro conjI)
qed

end
